theory Spec2Isabelle
  imports Complex_Main
begin

section \<open>The NER visualizer (visualizer.py): data model\<close>

text \<open>
  Python strings are modelled as HOL strings: a \<open>char\<close> stands for one code point in
  the range U+0000..U+00FF.  Character offsets (\<open>start_char\<close>, \<open>end_char\<close>,
  \<open>last_index\<close>) are Python integers, hence \<open>int\<close>, and slicing follows Python's rules
  for negative and out-of-range bounds.
\<close>

subsection \<open>Python built-ins used by the handlers\<close>

definition clamp_index :: "nat \<Rightarrow> int \<Rightarrow> nat" where
  \<comment> \<open>How a slice bound is adjusted against a sequence of length \<open>n\<close>.\<close>
  "clamp_index n i = (if i < 0 then nat (max 0 (int n + i)) else min n (nat i))"

definition py_slice :: "'a list \<Rightarrow> int \<Rightarrow> int \<Rightarrow> 'a list" where
  \<comment> \<open>\<open>xs[lo:hi]\<close>\<close>
  "py_slice xs lo hi =
     (let a = clamp_index (length xs) lo; b = clamp_index (length xs) hi
      in take (b - a) (drop a xs))"

definition py_slice_from :: "'a list \<Rightarrow> int \<Rightarrow> 'a list" where
  \<comment> \<open>\<open>xs[lo:]\<close>\<close>
  "py_slice_from xs lo = drop (clamp_index (length xs) lo) xs"

definition isspace :: "char \<Rightarrow> bool" where
  \<comment> \<open>The code points below 256 that \<open>str.strip()\<close> removes.\<close>
  "isspace c =
     (let n = (of_char c :: nat)
      in (9 \<le> n \<and> n \<le> 13) \<or> (28 \<le> n \<and> n \<le> 32) \<or> n = 133 \<or> n = 160)"

definition strip :: "string \<Rightarrow> string" where
  "strip s = rev (dropWhile isspace (rev (dropWhile isspace s)))"

definition lower_char :: "char \<Rightarrow> char" where
  "lower_char c =
     (let n = (of_char c :: nat)
      in if (65 \<le> n \<and> n \<le> 90) \<or> (192 \<le> n \<and> n \<le> 214) \<or> (216 \<le> n \<and> n \<le> 222)
         then char_of (n + 32) else c)"

definition lower :: "string \<Rightarrow> string" where
  "lower s = map lower_char s"

definition endswith :: "string \<Rightarrow> string \<Rightarrow> bool" where
  "endswith s suf = (length suf \<le> length s \<and> drop (length s - length suf) s = suf)"

subsection \<open>The recognition pipeline's output\<close>

text \<open>
  A spaCy \<open>Span\<close> as the handlers read it: \<open>ent.start_char\<close>, \<open>ent.end_char\<close>,
  \<open>ent.label_\<close>, \<open>ent.text\<close> and \<open>len(ent)\<close> (its number of tokens).  A \<open>Doc\<close>
  gives \<open>doc.ents\<close>, \<open>doc.sents\<close> and \<open>len(doc)\<close>.
\<close>

record span =
  start_char :: int
  end_char :: int
  label :: string
  span_text :: string
  span_len :: nat

record doc =
  ents :: "span list"
  sents :: "span list"
  doc_len :: nat

subsection \<open>The exported document\<close>

datatype rgb = RGBColor nat nat nat

record run =
  run_text :: string
  bold :: "bool option"
  color :: "rgb option"

type_synonym docx_paragraph = "run list"
type_synonym docx_document = "docx_paragraph list"

definition ENTITY_COLORS :: "(string \<times> rgb) list" where
  "ENTITY_COLORS =
     [(''PERSON'', RGBColor 50 205 50),
      (''LIT_WORK'', RGBColor 0 0 255),
      (''ART_WORK'', RGBColor 0 128 0),
      (''ART_MOVEMENT'', RGBColor 255 165 0),
      (''ORG'', RGBColor 128 0 128),
      (''PLACE'', RGBColor 0 128 128),
      (''EVENT'', RGBColor 0 255 255),
      (''GENRE'', RGBColor 255 20 147),
      (''CHARACTER'', RGBColor 165 42 42),
      (''QUOTE'', RGBColor 255 215 0),
      (''AWARD'', RGBColor 50 205 50),
      (''PERIOD'', RGBColor 255 0 255),
      (''TECHNIQUE'', RGBColor 75 0 130),
      (''MOVIE_TV'', RGBColor 148 0 211)]"

definition dict_get :: "('k \<times> 'v) list \<Rightarrow> 'k \<Rightarrow> 'v \<Rightarrow> 'v" where
  \<comment> \<open>\<open>d.get(k, default)\<close>\<close>
  "dict_get d k dflt = (case map_of d k of Some v \<Rightarrow> v | None \<Rightarrow> dflt)"

datatype pyerror = ZeroDivisionError | UnboundLocalError | ValueError

text \<open>
  python-docx's \<open>Paragraph.add_run(t)\<close> appends a run and sets its text.  Setting the text
  of a run turns every tab into a tab element and every line feed or carriage return
  into a line break, and stores the characters between them as XML text; lxml refuses
  XML text with a control character other than tab, line feed and carriage return, and
  raises \<open>ValueError\<close>.  Reading \<open>run.text\<close> back gives a tab for a tab element and a
  line feed for a line break.  The field \<open>run_text\<close> is the text read back.
\<close>

definition xml_compatible :: "char \<Rightarrow> bool" where
  \<comment> \<open>The code points below 256 that a run accepts.\<close>
  "xml_compatible c =
     (let n = (of_char c :: nat) in n = 9 \<or> n = 10 \<or> n = 13 \<or> 32 \<le> n)"

definition cr_to_lf :: "char \<Rightarrow> char" where
  "cr_to_lf c = (if c = CHR 0x0D then CHR 0x0A else c)"

definition add_run :: "docx_paragraph \<Rightarrow> string \<Rightarrow> pyerror + docx_paragraph" where
  \<comment> \<open>\<open>para.add_run(t)\<close>: a new run with default formatting at the end.\<close>
  "add_run para t =
     (if list_all xml_compatible t
      then Inr (para @ [\<lparr>run_text = map cr_to_lf t, bold = None, color = None\<rparr>])
      else Inl ValueError)"

definition entity_run :: "span \<Rightarrow> run" where
  \<comment> \<open>The run of lines 143-147: \<open>ent.text\<close>, bold, in the colour of \<open>ent.label_\<close>.\<close>
  "entity_run ent =
     \<lparr>run_text = map cr_to_lf (span_text ent), bold = Some True,
      color = Some (dict_get ENTITY_COLORS (label ent) (RGBColor 128 128 128))\<rparr>"

definition add_entity_run :: "docx_paragraph \<Rightarrow> span \<Rightarrow> pyerror + docx_paragraph" where
  \<comment> \<open>\<open>para.add_run(ent.text)\<close> of line 143, then the two assignments.\<close>
  "add_entity_run para ent =
     (if list_all xml_compatible (span_text ent)
      then Inr (para @ [entity_run ent])
      else Inl ValueError)"


subsection \<open>The segmentation loop of \<open>save_results\<close> (lines 138-151)\<close>

fun ent_loop ::
  "string \<Rightarrow> string list \<Rightarrow> span list \<Rightarrow> int \<Rightarrow> docx_paragraph \<Rightarrow> pyerror + int \<times> docx_paragraph"
where
  "ent_loop text selected_entities [] last_index para = Inr (last_index, para)"
| "ent_loop text selected_entities (ent # rest) last_index para =
     (if label ent \<in> set selected_entities then
        (case (if start_char ent > last_index
               then add_run para (py_slice text last_index (start_char ent))
               else Inr para) of
           Inl err \<Rightarrow> Inl err
         | Inr para1 \<Rightarrow>
             (case add_entity_run para1 ent of
                Inl err \<Rightarrow> Inl err
              | Inr para2 \<Rightarrow> ent_loop text selected_entities rest (end_char ent) para2))
      else ent_loop text selected_entities rest last_index para)"

definition export_runs :: "string \<Rightarrow> string list \<Rightarrow> span list \<Rightarrow> pyerror + docx_paragraph" where
  "export_runs text selected_entities es =
     (case ent_loop text selected_entities es 0 [] of
        Inl err \<Rightarrow> Inl err
      | Inr (last_index, para) \<Rightarrow>
          if last_index < int (length text)
          then add_run para (py_slice_from text last_index)
          else Inr para)"

definition span_ok :: "string \<Rightarrow> span \<Rightarrow> bool" where
  \<comment> \<open>The pipeline's contract for one span of a document with this text:
      \<open>0 <= start_char < end_char <= len(text)\<close>, and \<open>ent.text\<close> is that slice.\<close>
  "span_ok text e =
     (0 \<le> start_char e \<and> start_char e < end_char e \<and> end_char e \<le> int (length text) \<and>
      span_text e = py_slice text (start_char e) (end_char e))"

definition valid_spans :: "string \<Rightarrow> span list \<Rightarrow> bool" where
  \<comment> \<open>In bounds, sorted by offset and mutually non-overlapping.\<close>
  "valid_spans text es =
     (list_all (span_ok text) es \<and> sorted_wrt (\<lambda>a b. end_char a \<le> start_char b) es)"

section \<open>Requests, responses and the world outside the handlers\<close>

datatype number = PyInt int | PyFloat rat

text \<open>
  \<open>a / b\<close> on Python integers: raises on a zero divisor, otherwise a float.  The float
  is carried as the exact quotient it approximates; its rounding is not modelled.
\<close>

definition true_div :: "int \<Rightarrow> int \<Rightarrow> pyerror + number" where
  "true_div a b = (if b = 0 then Inl ZeroDivisionError else Inr (PyFloat (of_int a / of_int b)))"

record stats_report =
  entity_count :: nat
  entity_distribution :: "(string \<times> nat) list"
  token_count :: nat
  entity_density :: number
  sentence_lengths :: "nat list"
  avg_sentence_length :: number
  named_entity_length_distribution :: "nat list"

datatype body =
    ErrorBody string
  | HtmlBody string
  | TextBody string
  | SaveBody bool string
  | StatsBody stats_report

datatype response = Response body nat

fun body_keys :: "body \<Rightarrow> string list" where
  "body_keys (ErrorBody msg) = [''error'']"
| "body_keys (HtmlBody html) = [''html'']"
| "body_keys (TextBody t) = [''text'']"
| "body_keys (SaveBody ok file_path) = [''success'', ''file_path'']"
| "body_keys (StatsBody r) =
     [''entity_count'', ''entity_distribution'', ''token_count'', ''entity_density'',
      ''sentence_lengths'', ''avg_sentence_length'', ''named_entity_length_distribution'']"

fun response_keys :: "response \<Rightarrow> string list" where
  "response_keys (Response b code) = body_keys b"

fun status_code :: "response \<Rightarrow> nat" where
  "status_code (Response b code) = code"

text \<open>The JSON body of \<open>/filter\<close> and \<open>/save\<close> (\<open>/stats\<close> reads only \<open>text\<close>); a key
  may be missing, and \<open>data.get\<close> then gives the default.\<close>

record reqdata =
  data_text :: "string option"
  data_selected_entities :: "string list option"

definition get_text :: "reqdata \<Rightarrow> string" where
  \<comment> \<open>\<open>data.get("text", "")\<close>\<close>
  "get_text data = (case data_text data of Some t \<Rightarrow> t | None \<Rightarrow> [])"

definition get_selected_entities :: "reqdata \<Rightarrow> string list" where
  \<comment> \<open>\<open>data.get("selected_entities", [])\<close>\<close>
  "get_selected_entities data = (case data_selected_entities data of Some l \<Rightarrow> l | None \<Rightarrow> [])"

type_synonym bytes = "nat list"

record upload =
  filename :: string
  content :: bytes

text \<open>
  What a handler does to the outside: the calls it makes to the recognition pipeline
  and to the two extraction functions, in order, and the files it writes.
\<close>

datatype event = NlpCall string | ExtractPdf bytes | ExtractDocx bytes

record world =
  calls :: "event list"
  files :: "string \<Rightarrow> docx_document option"

text \<open>
  The libraries the handlers call, as parameters: the loaded pipeline \<open>nlp\<close>,
  \<open>displacy.render\<close> (with its \<open>ents\<close> and \<open>colors\<close> options), the page texts
  PyMuPDF reads from a PDF and the paragraph texts python-docx reads from a DOCX.
\<close>

record collab =
  nlp :: "string \<Rightarrow> doc"
  displacy_render :: "doc \<Rightarrow> string list \<Rightarrow> (string \<Rightarrow> string option) \<Rightarrow> string"
  pdf_pages :: "bytes \<Rightarrow> string list"
  docx_paragraphs :: "bytes \<Rightarrow> string list"

definition log_call :: "event \<Rightarrow> world \<Rightarrow> world" where
  "log_call ev w = w\<lparr>calls := calls w @ [ev]\<rparr>"


section \<open>The handlers\<close>

subsection \<open>\<open>/filter\<close>\<close>


subsection \<open>\<open>/upload\<close>\<close>

definition extract_text_from_pdf :: "collab \<Rightarrow> bytes \<Rightarrow> string" where
  "extract_text_from_pdf C file_bytes =
     strip (foldl (\<lambda>text page. text @ page @ [CHR 0x0A]) [] (pdf_pages C file_bytes))"

fun join :: "string \<Rightarrow> string list \<Rightarrow> string" where
  "join sep [] = []"
| "join sep [x] = x"
| "join sep (x # y # ys) = x @ sep @ join sep (y # ys)"

definition extract_text_from_docx :: "collab \<Rightarrow> bytes \<Rightarrow> string" where
  "extract_text_from_docx C file_bytes = strip (join [CHR 0x0A] (docx_paragraphs C file_bytes))"

definition upload_file :: "collab \<Rightarrow> upload option \<Rightarrow> world \<Rightarrow> (pyerror + response) \<times> world" where
  \<comment> \<open>The argument is \<open>request.files\<close> at the key \<open>"file"\<close>, if present.\<close>
  "upload_file C request_file w =
     (case request_file of
        None \<Rightarrow> (Inr (Response (ErrorBody ''No file provided'') 400), w)
      | Some file \<Rightarrow>
          if filename file = [] then (Inr (Response (ErrorBody ''No selected file'') 400), w)
          else
            let fname = lower (filename file) in
            if \<not> (endswith fname ''.pdf'' \<or> endswith fname ''.docx'') then
              (Inr (Response (ErrorBody ''Invalid file format. Please upload a PDF or DOCX.'') 400), w)
            else
              let file_bytes = content file in
              if endswith fname ''.pdf'' then
                (Inr (Response (TextBody (extract_text_from_pdf C file_bytes)) 200),
                 log_call (ExtractPdf file_bytes) w)
              else if endswith fname ''.docx'' then
                (Inr (Response (TextBody (extract_text_from_docx C file_bytes)) 200),
                 log_call (ExtractDocx file_bytes) w)
              else (Inl UnboundLocalError, w))"

subsection \<open>\<open>/save\<close>\<close>

definition save_results :: "collab \<Rightarrow> reqdata \<Rightarrow> world \<Rightarrow> (pyerror + response) \<times> world" where
  "save_results C data w =
     (let text = strip (get_text data);
          selected_entities = get_selected_entities data
      in if text = [] then (Inr (Response (ErrorBody ''No content to save'') 400), w)
         else
           let processed_doc = nlp C text;
               w1 = log_call (NlpCall text) w
           in case export_runs text selected_entities (ents processed_doc) of
                Inl err \<Rightarrow> (Inl err, w1)
              | Inr para \<Rightarrow>
                  let file_path = ''Results.docx''
                  in (Inr (Response (SaveBody True file_path) 200),
                      w1\<lparr>files := (files w1)(file_path \<mapsto> [para])\<rparr>))"

subsection \<open>\<open>/stats\<close>\<close>

fun counter_add :: "('k \<times> nat) list \<Rightarrow> 'k \<Rightarrow> ('k \<times> nat) list" where
  \<comment> \<open>\<open>self[elem] = self.get(elem, 0) + 1\<close> on an insertion-ordered dict.\<close>
  "counter_add [] k = [(k, 1)]"
| "counter_add ((k', c) # kcs) k =
     (if k' = k then (k', c + 1) # kcs else (k', c) # counter_add kcs k)"

definition Counter :: "'k list \<Rightarrow> ('k \<times> nat) list" where
  "Counter xs = foldl counter_add [] xs"

definition stats_of_doc :: "doc \<Rightarrow> pyerror + stats_report" where
  \<comment> \<open>Lines 166-191, from the pipeline's \<open>doc\<close> to the fields of the response.\<close>
  "stats_of_doc d =
     (let entity_counts = Counter (map label (ents d));
          total_entities = length (ents d);
          tokens = doc_len d
      in case (if tokens > 0 then true_div (int total_entities) (int tokens) else Inr (PyInt 0)) of
           Inl err \<Rightarrow> Inl err
         | Inr density \<Rightarrow>
             (let lengths = map span_len (sents d)
              in case (if lengths \<noteq> []
                       then true_div (int (sum_list lengths)) (int (length lengths))
                       else Inr (PyInt 0)) of
                   Inl err \<Rightarrow> Inl err
                 | Inr avg \<Rightarrow>
                     Inr \<lparr>entity_count = total_entities,
                          entity_distribution = entity_counts,
                          token_count = tokens,
                          entity_density = density,
                          sentence_lengths = lengths,
                          avg_sentence_length = avg,
                          named_entity_length_distribution = map span_len (ents d)\<rparr>))"

definition stats :: "collab \<Rightarrow> reqdata \<Rightarrow> world \<Rightarrow> (pyerror + response) \<times> world" where
  "stats C data w =
     (let text = strip (get_text data)
      in if text = [] then (Inr (Response (ErrorBody ''No text provided'') 400), w)
         else
           let d = nlp C text;
               w1 = log_call (NlpCall text) w
           in case stats_of_doc d of
                Inl err \<Rightarrow> (Inl err, w1)
              | Inr r \<Rightarrow> (Inr (Response (StatsBody r) 200), w1))"

definition stored :: "('k \<times> nat) list \<Rightarrow> 'k \<Rightarrow> nat" where
  \<comment> \<open>\<open>counter[k]\<close>, which is 0 for a missing key.\<close>
  "stored al k = (case map_of al k of None \<Rightarrow> 0 | Some c \<Rightarrow> c)"

section \<open>Concrete inputs\<close>

definition dracula :: string where
  "dracula = ''Dracula was written by Bram Stoker.''"

definition dracula_ents :: "span list" where
  "dracula_ents =
     [\<lparr>start_char = 0, end_char = 7, label = ''CHARACTER'', span_text = ''Dracula'', span_len = 1\<rparr>,
      \<lparr>start_char = 23, end_char = 34, label = ''PERSON'', span_text = ''Bram Stoker'', span_len = 2\<rparr>]"

definition dracula_doc :: doc where
  "dracula_doc =
     \<lparr>ents = dracula_ents,
      sents = [\<lparr>start_char = 0, end_char = 35, label = [], span_text = dracula, span_len = 7\<rparr>],
      doc_len = 7\<rparr>"

definition orgs_doc :: doc where
  \<comment> \<open>Three entities, two sentences of 5 and 7 tokens.\<close>
  "orgs_doc =
     \<lparr>ents =
        [\<lparr>start_char = 0, end_char = 3, label = ''ORG'', span_text = ''IBM'', span_len = 1\<rparr>,
         \<lparr>start_char = 3, end_char = 6, label = ''ORG'', span_text = ''SAP'', span_len = 1\<rparr>,
         \<lparr>start_char = 10, end_char = 13, label = ''PLACE'', span_text = ''Rio'', span_len = 1\<rparr>],
      sents =
        [\<lparr>start_char = 0, end_char = 20, label = [], span_text = [], span_len = 5\<rparr>,
         \<lparr>start_char = 21, end_char = 50, label = [], span_text = [], span_len = 7\<rparr>],
      doc_len = 12\<rparr>"


definition vt_text :: string where
  \<comment> \<open>\<open>"Dracula\x0bBram Stoker"\<close>\<close>
  "vt_text = ''Dracula'' @ [CHR 0x0B] @ ''Bram Stoker''"

definition vt_ents :: "span list" where
  "vt_ents =
     [\<lparr>start_char = 0, end_char = 7, label = ''CHARACTER'', span_text = ''Dracula'', span_len = 1\<rparr>,
      \<lparr>start_char = 8, end_char = 19, label = ''PERSON'', span_text = ''Bram Stoker'', span_len = 2\<rparr>]"

definition sample_collab :: collab where
  "sample_collab =
     \<lparr>nlp = (\<lambda>t. if t = dracula then dracula_doc
                 else if t = vt_text then \<lparr>ents = vt_ents, sents = [], doc_len = 4\<rparr>
                 else \<lparr>ents = [], sents = [], doc_len = 0\<rparr>),
      displacy_render = (\<lambda>d es cs. []),
      pdf_pages = (\<lambda>b. []),
      docx_paragraphs = (\<lambda>b. [])\<rparr>"

definition w0 :: world where
  "w0 = \<lparr>calls = [], files = (\<lambda>p. None)\<rparr>"

definition dracula_req :: reqdata where
  "dracula_req =
     \<lparr>data_text = Some (''  '' @ dracula @ '' ''), data_selected_entities = Some [''PERSON'']\<rparr>"



definition empty_req :: reqdata where
  "empty_req = \<lparr>data_text = Some [], data_selected_entities = Some [''PERSON'']\<rparr>"


definition report_txt :: upload where
  "report_txt = \<lparr>filename = ''report.txt'', content = [1, 2, 3]\<rparr>"

section \<open>Python slices inside the bounds\<close>

lemma py_slice_in_bounds:
  "0 \<le> a \<Longrightarrow> a \<le> b \<Longrightarrow> b \<le> int (length xs) \<Longrightarrow>
   py_slice xs a b = take (nat b - nat a) (drop (nat a) xs)"
  by (simp add: py_slice_def clamp_index_def Let_def min_def)

lemma py_slice_from_in_bounds:
  "0 \<le> a \<Longrightarrow> a \<le> int (length xs) \<Longrightarrow> py_slice_from xs a = drop (nat a) xs"
  by (simp add: py_slice_from_def clamp_index_def min_def)

lemma take_extend:
  "i \<le> j \<Longrightarrow> take i xs @ take (j - i) (drop i xs) = take j xs"
  by (metis le_add_diff_inverse take_add)

lemma py_slice_length:
  "0 \<le> a \<Longrightarrow> a \<le> b \<Longrightarrow> b \<le> int (length xs) \<Longrightarrow> length (py_slice xs a b) = nat (b - a)"
  by (simp add: py_slice_in_bounds)

lemma py_slice_nonempty:
  "0 \<le> a \<Longrightarrow> a < b \<Longrightarrow> b \<le> int (length xs) \<Longrightarrow> py_slice xs a b \<noteq> []"
  using py_slice_length[of a b xs] by auto

lemma py_slice_from_nonempty:
  "0 \<le> a \<Longrightarrow> a < int (length xs) \<Longrightarrow> py_slice_from xs a \<noteq> []"
  by (simp add: py_slice_from_in_bounds)

lemma piece_incompatible:
  "\<not> list_all P (take n (drop m xs)) \<Longrightarrow> \<not> list_all P xs"
  by (meson in_set_takeD in_set_dropD list_all_iff)

lemma py_slice_extends:
  assumes "0 \<le> a" "a \<le> b" "b \<le> int (length xs)"
  shows "take (nat a) xs @ py_slice xs a b = take (nat b) xs"
proof -
  have "nat a \<le> nat b" using assms by simp
  then show ?thesis
    using assms take_extend[of "nat a" "nat b" xs] by (simp add: py_slice_in_bounds)
qed

lemma py_slice_incompatible:
  assumes "0 \<le> a" "a \<le> b" "b \<le> int (length xs)" "\<not> list_all P (py_slice xs a b)"
  shows "\<not> list_all P xs"
  using assms piece_incompatible[of P "nat b - nat a" "nat a" xs]
  by (simp add: py_slice_in_bounds)

section \<open>Runs\<close>

lemma add_run_Inr:
  "(add_run para t = Inr para') =
     (list_all xml_compatible t \<and>
      para' = para @ [\<lparr>run_text = map cr_to_lf t, bold = None, color = None\<rparr>])"
  by (auto simp: add_run_def)

lemma add_run_Inl: "(add_run para t = Inl err) = (\<not> list_all xml_compatible t \<and> err = ValueError)"
  by (auto simp: add_run_def)

lemma add_entity_run_Inr:
  "(add_entity_run para e = Inr para') =
     (list_all xml_compatible (span_text e) \<and> para' = para @ [entity_run e])"
  by (auto simp: add_entity_run_def)

lemma add_entity_run_Inl:
  "(add_entity_run para e = Inl err) = (\<not> list_all xml_compatible (span_text e) \<and> err = ValueError)"
  by (auto simp: add_entity_run_def)


section \<open>Invariants of the segmentation loop\<close>

lemma ent_loop_selected:
  assumes "label e \<in> set sel"
  shows "ent_loop text sel (e # es) last_index para =
     (case (if start_char e > last_index
            then add_run para (py_slice text last_index (start_char e))
            else Inr para) of
        Inl err \<Rightarrow> Inl err
      | Inr para1 \<Rightarrow>
          (case add_entity_run para1 e of
             Inl err \<Rightarrow> Inl err
           | Inr para2 \<Rightarrow> ent_loop text sel es (end_char e) para2))"
  using assms by simp

lemma ent_loop_covers:
  assumes "list_all (span_ok text) es"
    and "sorted_wrt (\<lambda>a b. end_char a \<le> start_char b) es"
    and "\<forall>e \<in> set es. last_index \<le> start_char e"
    and "0 \<le> last_index" and "last_index \<le> int (length text)"
    and "concat (map run_text para) = map cr_to_lf (take (nat last_index) text)"
    and "list_all xml_compatible (take (nat last_index) text)"
  shows "(\<forall>err. ent_loop text sel es last_index para = Inl err \<longrightarrow>
            err = ValueError \<and> \<not> list_all xml_compatible text) \<and>
         (\<forall>last' para'. ent_loop text sel es last_index para = Inr (last', para') \<longrightarrow>
            0 \<le> last' \<and> last' \<le> int (length text) \<and>
            concat (map run_text para') = map cr_to_lf (take (nat last') text) \<and>
            list_all xml_compatible (take (nat last') text))"
  using assms
proof (induction es arbitrary: last_index para)
  case Nil
  then show ?case by simp
next
  case (Cons e es)
  from Cons.prems(1) have ok: "span_ok text e" and oks: "list_all (span_ok text) es" by simp_all
  from Cons.prems(2) have srt: "sorted_wrt (\<lambda>a b. end_char a \<le> start_char b) es"
    and nxt: "\<forall>x \<in> set es. end_char e \<le> start_char x" by simp_all
  from Cons.prems(3) have le: "last_index \<le> start_char e" by simp
  from ok have b: "0 \<le> start_char e" "start_char e < end_char e" "end_char e \<le> int (length text)"
    and tx: "span_text e = py_slice text (start_char e) (end_char e)"
    by (simp_all add: span_ok_def)
  show ?case
  proof (cases "label e \<in> set sel")
    case False
    then have "ent_loop text sel (e # es) last_index para = ent_loop text sel es last_index para"
      by simp
    moreover have "\<forall>x \<in> set es. last_index \<le> start_char x" using Cons.prems(3) by simp
    ultimately show ?thesis
      using Cons.IH[OF oks srt _ Cons.prems(4,5,6,7)] by simp
  next
    case True
    note lab = True
    note step = ent_loop_selected[OF True, of "text" es last_index para]
    let ?gap = "py_slice text last_index (start_char e)"
    have sl: "start_char e \<le> int (length text)" using b by simp
    have ext1: "take (nat last_index) text @ ?gap = take (nat (start_char e)) text"
      using py_slice_extends[OF Cons.prems(4) le sl] .
    have ext2: "take (nat (start_char e)) text @ span_text e = take (nat (end_char e)) text"
      using py_slice_extends[of "start_char e" "end_char e" "text"] b tx by simp
    show ?thesis
    proof (cases "start_char e > last_index \<and> \<not> list_all xml_compatible ?gap")
      case True
      then have "add_run para ?gap = Inl ValueError" by (simp add: add_run_Inl)
      with True have "ent_loop text sel (e # es) last_index para = Inl ValueError"
        by (simp add: lab)
      moreover have "\<not> list_all xml_compatible text"
        using True py_slice_incompatible[OF Cons.prems(4) le sl] by blast
      ultimately show ?thesis by simp
    next
      case False
      define para1 where "para1 = (if start_char e > last_index
          then para @ [\<lparr>run_text = map cr_to_lf ?gap, bold = None, color = None\<rparr>] else para)"
      have g: "(if start_char e > last_index then add_run para ?gap else Inr para) = Inr para1"
        using False by (simp add: add_run_def para1_def)
      have p1: "concat (map run_text para1) = map cr_to_lf (take (nat (start_char e)) text)"
      proof (cases "start_char e > last_index")
        case True
        have "concat (map run_text para1) = map cr_to_lf (take (nat last_index) text @ ?gap)"
          using True Cons.prems(6) by (simp add: para1_def)
        then show ?thesis by (simp only: ext1)
      next
        case False
        with le have "start_char e = last_index" by simp
        with False Cons.prems(6) show ?thesis by (simp add: para1_def)
      qed
      have ok1: "list_all xml_compatible (take (nat (start_char e)) text)"
      proof (cases "start_char e > last_index")
        case True
        with False have "list_all xml_compatible ?gap" by simp
        with Cons.prems(7) have "list_all xml_compatible (take (nat last_index) text @ ?gap)"
          by simp
        then show ?thesis by (simp only: ext1)
      next
        case False
        with le have "start_char e = last_index" by simp
        with Cons.prems(7) show ?thesis by simp
      qed
      show ?thesis
      proof (cases "list_all xml_compatible (span_text e)")
        case False
        then have "add_entity_run para1 e = Inl ValueError" by (simp add: add_entity_run_Inl)
        then have "ent_loop text sel (e # es) last_index para = Inl ValueError"
          unfolding step g by simp
        moreover have "\<not> list_all xml_compatible text"
          using False tx py_slice_incompatible[of "start_char e" "end_char e" "text" xml_compatible] b
          by simp
        ultimately show ?thesis by simp
      next
        case True
        then have "add_entity_run para1 e = Inr (para1 @ [entity_run e])"
          by (simp add: add_entity_run_Inr)
        then have run: "ent_loop text sel (e # es) last_index para =
            ent_loop text sel es (end_char e) (para1 @ [entity_run e])"
          unfolding step g by simp
        have "concat (map run_text (para1 @ [entity_run e])) =
            map cr_to_lf (take (nat (start_char e)) text @ span_text e)"
          using p1 by (simp add: entity_run_def)
        then have p2: "concat (map run_text (para1 @ [entity_run e])) =
            map cr_to_lf (take (nat (end_char e)) text)"
          by (simp only: ext2)
        have "list_all xml_compatible (take (nat (start_char e)) text @ span_text e)"
          using ok1 True by simp
        then have ok2: "list_all xml_compatible (take (nat (end_char e)) text)"
          by (simp only: ext2)
        have e0: "0 \<le> end_char e" using b by simp
        from Cons.IH[OF oks srt nxt e0 b(3) p2 ok2] show ?thesis
          by (simp only: run)
      qed
    qed
  qed
qed

lemma export_runs_covers:
  assumes "valid_spans text es"
  shows "(list_all xml_compatible text \<and>
          (\<exists>para. export_runs text sel es = Inr para \<and>
                  concat (map run_text para) = map cr_to_lf text)) \<or>
         (\<not> list_all xml_compatible text \<and> export_runs text sel es = Inl ValueError)"
proof -
  from assms have a: "list_all (span_ok text) es"
    "sorted_wrt (\<lambda>a b. end_char a \<le> start_char b) es"
    by (simp_all add: valid_spans_def)
  from a(1) have nn: "\<forall>e \<in> set es. 0 \<le> start_char e" by (simp add: list_all_iff span_ok_def)
  have inv: "(\<forall>err. ent_loop text sel es 0 [] = Inl err \<longrightarrow>
            err = ValueError \<and> \<not> list_all xml_compatible text) \<and>
         (\<forall>last' para'. ent_loop text sel es 0 [] = Inr (last', para') \<longrightarrow>
            0 \<le> last' \<and> last' \<le> int (length text) \<and>
            concat (map run_text para') = map cr_to_lf (take (nat last') text) \<and>
            list_all xml_compatible (take (nat last') text))"
    using ent_loop_covers[OF a nn, of "[]" sel] by simp
  show ?thesis
  proof (cases "ent_loop text sel es 0 []")
    case (Inl err)
    with inv have "err = ValueError" "\<not> list_all xml_compatible text" by simp_all
    with Inl show ?thesis by (simp add: export_runs_def)
  next
    case (Inr res)
    obtain last' para' where res: "res = (last', para')" by (cases res)
    with Inr inv have i: "0 \<le> last'" "last' \<le> int (length text)"
      "concat (map run_text para') = map cr_to_lf (take (nat last') text)"
      "list_all xml_compatible (take (nat last') text)" by simp_all
    show ?thesis
    proof (cases "last' < int (length text)")
      case False
      with i have "nat last' = length text" by simp
      with i False Inr res show ?thesis by (simp add: export_runs_def)
    next
      case True
      have whole: "take (nat last') text @ drop (nat last') text = text" by simp
      have ex: "export_runs text sel es = add_run para' (drop (nat last') text)"
        using True Inr res i by (simp add: export_runs_def py_slice_from_in_bounds)
      show ?thesis
      proof (cases "list_all xml_compatible (drop (nat last') text)")
        case True
        with i(4) have "list_all xml_compatible (take (nat last') text @ drop (nat last') text)"
          by (simp only: list_all_append)
        then have all: "list_all xml_compatible text" by (simp only: whole)
        have "map cr_to_lf text =
            map cr_to_lf (take (nat last') text) @ map cr_to_lf (drop (nat last') text)"
          by (metis append_take_drop_id map_append)
        with i(3) have "concat (map run_text (para' @
            [\<lparr>run_text = map cr_to_lf (drop (nat last') text), bold = None, color = None\<rparr>])) =
            map cr_to_lf text" by simp
        with all True ex show ?thesis by (simp add: add_run_def)
      next
        case False
        then have "\<not> list_all xml_compatible text"
          by (meson in_set_dropD list_all_iff)
        with False ex show ?thesis by (simp add: add_run_def)
      qed
    qed
  qed
qed

lemma ent_loop_nonempty:
  assumes "ent_loop text sel es last_index para = Inr (last', para')"
    and "list_all (span_ok text) es"
    and "0 \<le> last_index"
    and "\<forall>r \<in> set para. run_text r \<noteq> []"
  shows "0 \<le> last' \<and> (\<forall>r \<in> set para'. run_text r \<noteq> [])"
  using assms
proof (induction es arbitrary: last_index para)
  case Nil
  then show ?case by simp
next
  case (Cons e es)
  from Cons.prems(2) have ok: "span_ok text e" and oks: "list_all (span_ok text) es" by simp_all
  from ok have b: "0 \<le> start_char e" "start_char e < end_char e" "end_char e \<le> int (length text)"
    and tx: "span_text e = py_slice text (start_char e) (end_char e)"
    by (simp_all add: span_ok_def)
  show ?case
  proof (cases "label e \<in> set sel")
    case False
    with Cons.prems(1) have "ent_loop text sel es last_index para = Inr (last', para')" by simp
    from Cons.IH[OF this oks Cons.prems(3,4)] show ?thesis .
  next
    case True
    let ?gap = "py_slice text last_index (start_char e)"
    from Cons.prems(1) obtain para1 para2 where
      g: "(if start_char e > last_index then add_run para ?gap else Inr para) = Inr para1"
      and a: "add_entity_run para1 e = Inr para2"
      and run: "ent_loop text sel es (end_char e) para2 = Inr (last', para')"
      unfolding ent_loop_selected[OF True] by (auto split: sum.splits)
    have gap: "start_char e > last_index \<Longrightarrow> ?gap \<noteq> []"
      using b Cons.prems(3) by (simp add: py_slice_nonempty)
    have p1: "\<forall>r \<in> set para1. run_text r \<noteq> []"
      using g Cons.prems(4) gap by (auto simp: add_run_Inr split: if_splits)
    have "span_text e \<noteq> []" using tx b by (simp add: py_slice_nonempty)
    with p1 a have p2: "\<forall>r \<in> set para2. run_text r \<noteq> []"
      by (auto simp: add_entity_run_Inr entity_run_def)
    have e0: "0 \<le> end_char e" using b by simp
    from Cons.IH[OF run oks e0 p2] show ?thesis .
  qed
qed




section \<open>\<open>str.strip\<close>\<close>






section \<open>\<open>Counter\<close>\<close>

lemma counter_add_sum: "sum_list (map snd (counter_add al k)) = Suc (sum_list (map snd al))"
  by (induction al k rule: counter_add.induct) auto

lemma counter_add_keys: "set (map fst (counter_add al k)) = insert k (set (map fst al))"
  by (induction al k rule: counter_add.induct) auto

lemma counter_add_distinct: "distinct (map fst al) \<Longrightarrow> distinct (map fst (counter_add al k))"
  by (induction al k rule: counter_add.induct) (auto simp: counter_add_keys simp flip: set_map)

lemma counter_add_map_of:
  "map_of (counter_add al k) k' =
     (if k' = k then Some (case map_of al k of None \<Rightarrow> 1 | Some c \<Rightarrow> Suc c) else map_of al k')"
  by (induction al k rule: counter_add.induct) auto

lemma foldl_counter_sum:
  "sum_list (map snd (foldl counter_add al xs)) = sum_list (map snd al) + length xs"
  by (induction xs arbitrary: al) (simp_all add: counter_add_sum)

lemma foldl_counter_keys:
  "set (map fst (foldl counter_add al xs)) = set (map fst al) \<union> set xs"
  by (induction xs arbitrary: al) (simp_all add: counter_add_keys del: set_map)

lemma foldl_counter_distinct:
  "distinct (map fst al) \<Longrightarrow> distinct (map fst (foldl counter_add al xs))"
  by (induction xs arbitrary: al) (simp_all add: counter_add_distinct)

lemma stored_counter_add: "stored (counter_add al k) k' = stored al k' + (if k' = k then 1 else 0)"
  by (simp add: stored_def counter_add_map_of split: option.splits)

lemma foldl_counter_stored:
  "stored (foldl counter_add al xs) k = stored al k + count_list xs k"
  by (induction xs arbitrary: al) (simp_all add: stored_counter_add)

lemma Counter_sum: "sum_list (map snd (Counter xs)) = length xs"
  by (simp add: Counter_def foldl_counter_sum)

lemma Counter_keys: "set (map fst (Counter xs)) = set xs"
  using foldl_counter_keys[of "[]" xs] by (simp add: Counter_def)

lemma Counter_distinct: "distinct (map fst (Counter xs))"
  by (simp add: Counter_def foldl_counter_distinct)

lemma Counter_map_of:
  "map_of (Counter xs) k = (if k \<in> set xs then Some (count_list xs k) else None)"
proof (cases "k \<in> set xs")
  case True
  then have "k \<in> set (map fst (Counter xs))" using Counter_keys[of xs] by blast
  then obtain c where c: "map_of (Counter xs) k = Some c"
    by (metis map_of_eq_None_iff not_Some_eq set_map)
  have "stored (Counter xs) k = count_list xs k"
    using foldl_counter_stored[of "[]" xs k] by (simp add: Counter_def stored_def)
  with c True show ?thesis by (simp add: stored_def)
next
  case False
  then have "k \<notin> set (map fst (Counter xs))" using Counter_keys[of xs] by blast
  then have "map_of (Counter xs) k = None" by (simp add: map_of_eq_None_iff)
  with False show ?thesis by simp
qed

section \<open>The handlers, case by case\<close>

lemma stats_of_doc_eq:
  "stats_of_doc d =
     Inr \<lparr>entity_count = length (ents d),
          entity_distribution = Counter (map label (ents d)),
          token_count = doc_len d,
          entity_density =
            (if 0 < doc_len d then PyFloat (of_nat (length (ents d)) / of_nat (doc_len d))
             else PyInt 0),
          sentence_lengths = map span_len (sents d),
          avg_sentence_length =
            (if sents d \<noteq> []
             then PyFloat (of_nat (sum_list (map span_len (sents d))) / of_nat (length (sents d)))
             else PyInt 0),
          named_entity_length_distribution = map span_len (ents d)\<rparr>"
  by (simp add: stats_of_doc_def true_div_def Let_def)


lemma save_results_rejects:
  "strip (get_text data) = [] \<Longrightarrow>
   save_results C data w = (Inr (Response (ErrorBody ''No content to save'') 400), w)"
  by (simp add: save_results_def)

lemma save_results_writes:
  assumes "strip (get_text data) \<noteq> []"
    and "export_runs (strip (get_text data)) (get_selected_entities data)
           (ents (nlp C (strip (get_text data)))) = Inr para"
  shows "save_results C data w =
     (Inr (Response (SaveBody True ''Results.docx'') 200),
      (log_call (NlpCall (strip (get_text data))) w)
        \<lparr>files := (files w)(''Results.docx'' \<mapsto> [para])\<rparr>)"
  using assms by (simp add: save_results_def Let_def log_call_def)

lemma save_results_raises:
  assumes "strip (get_text data) \<noteq> []"
    and "export_runs (strip (get_text data)) (get_selected_entities data)
           (ents (nlp C (strip (get_text data)))) = Inl err"
  shows "save_results C data w = (Inl err, log_call (NlpCall (strip (get_text data))) w)"
  using assms by (simp add: save_results_def Let_def)


lemma stats_rejects:
  "strip (get_text data) = [] \<Longrightarrow>
   stats C data w = (Inr (Response (ErrorBody ''No text provided'') 400), w)"
  by (simp add: stats_def)

lemma stats_reports:
  "strip (get_text data) \<noteq> [] \<Longrightarrow>
   \<exists>r. stats_of_doc (nlp C (strip (get_text data))) = Inr r \<and>
       stats C data w =
         (Inr (Response (StatsBody r) 200), log_call (NlpCall (strip (get_text data))) w)"
  by (simp add: stats_def Let_def stats_of_doc_eq)

lemma stats_never_raises: "\<exists>resp. fst (stats C data w) = Inr resp"
proof (cases "strip (get_text data) = []")
  case True
  then show ?thesis by (simp add: stats_rejects)
next
  case False
  from stats_reports[OF this, of C w] show ?thesis by auto
qed

section \<open>The claims\<close>






text \<open>
  C3 (no empty segments).  When every span satisfies
  \<open>0 <= start_char < end_char <= len(text)\<close> and the spans are sorted and non-overlapping,
  no run emitted by the segmentation has an empty text; so no empty plain run stands
  before a span that starts at offset 0 or after a span that ends at \<open>len(text)\<close>.  The
  segmentation emits its runs exactly when every character of the text is
  XML-compatible.
\<close>

theorem no_empty_segments:
  assumes "valid_spans text es"
  shows "(\<forall>para. export_runs text sel es = Inr para \<longrightarrow> (\<forall>r \<in> set para. run_text r \<noteq> [])) \<and>
         ((\<exists>para. export_runs text sel es = Inr para) = list_all xml_compatible text)"
proof -
  from assms have a: "list_all (span_ok text) es"
    by (simp_all add: valid_spans_def)
  have "\<forall>r \<in> set para. run_text r \<noteq> []" if ex: "export_runs text sel es = Inr para" for para
  proof -
    from ex obtain last' para' where r: "ent_loop text sel es 0 [] = Inr (last', para')"
      by (auto simp: export_runs_def split: sum.splits)
    from ent_loop_nonempty[OF r a]
    have inv: "0 \<le> last'" "\<forall>r \<in> set para'. run_text r \<noteq> []"
      by simp_all
    have "last' < int (length text) \<Longrightarrow> py_slice_from text last' \<noteq> []"
      using inv(1) by (simp add: py_slice_from_nonempty)
    with inv r ex show ?thesis
      by (auto simp: export_runs_def add_run_Inr split: if_splits)
  qed
  moreover have "(\<exists>para. export_runs text sel es = Inr para) = list_all xml_compatible text"
    using export_runs_covers[OF assms, of sel] by auto
  ultimately show ?thesis by blast
qed

theorem no_empty_segments_witness:
  "valid_spans dracula dracula_ents \<and>
   (\<exists>para. export_runs dracula [''CHARACTER''] dracula_ents = Inr para \<and>
           list_all (\<lambda>r. run_text r \<noteq> []) para)"
proof -
  have v: "valid_spans dracula dracula_ents"
    by (simp add: valid_spans_def span_ok_def dracula_def dracula_ents_def py_slice_def
        clamp_index_def)
  have x: "list_all xml_compatible dracula"
    by (simp add: dracula_def xml_compatible_def)
  note T = no_empty_segments[OF v, of "[''CHARACTER'']"]
  from T x obtain para where ex: "export_runs dracula [''CHARACTER''] dracula_ents = Inr para"
    by blast
  with T have "\<forall>r \<in> set para. run_text r \<noteq> []" by blast
  with v ex show ?thesis by (simp add: list_all_iff)
qed

text \<open>
  C4 (density zero-guard).  For every pipeline output the report is computed without an
  exception, its \<open>entity_density\<close> is \<open>entity_count / token_count\<close> when
  \<open>token_count > 0\<close> and the integer 0 when \<open>token_count = 0\<close>; and no request to
  \<open>/stats\<close> raises \<open>ZeroDivisionError\<close>.
\<close>

theorem density_zero_guard:
  "(\<exists>r. stats_of_doc d = Inr r \<and>
        entity_count r = length (ents d) \<and> token_count r = doc_len d \<and>
        entity_density r =
          (if 0 < token_count r
           then PyFloat (of_nat (entity_count r) / of_nat (token_count r))
           else PyInt 0)) \<and>
   fst (stats C data w) \<noteq> Inl ZeroDivisionError"
proof -
  obtain resp where "fst (stats C data w) = Inr resp"
    using stats_never_raises by blast
  then show ?thesis by (simp add: stats_of_doc_eq)
qed

theorem density_zero_guard_witness:
  "(\<exists>r. stats_of_doc orgs_doc = Inr r \<and> entity_count r = 3 \<and> token_count r = 12 \<and>
        entity_density r = PyFloat (1 / 4)) \<and>
   (\<exists>r. stats_of_doc \<lparr>ents = [], sents = [], doc_len = 0\<rparr> = Inr r \<and>
        entity_density r = PyInt 0)"
  using density_zero_guard[of orgs_doc sample_collab empty_req w0]
    density_zero_guard[of "\<lparr>ents = [], sents = [], doc_len = 0\<rparr>" sample_collab empty_req w0]
  by (auto simp: orgs_doc_def)

text \<open>
  C5 (average zero-guard).  For every pipeline output the report is computed without an
  exception, its \<open>avg_sentence_length\<close> is the arithmetic mean of \<open>sentence_lengths\<close>
  when that list is not empty and the integer 0 when there is no sentence; and no request
  to \<open>/stats\<close> raises \<open>ZeroDivisionError\<close>.
\<close>

theorem average_zero_guard:
  "(\<exists>r. stats_of_doc d = Inr r \<and>
        sentence_lengths r = map span_len (sents d) \<and>
        avg_sentence_length r =
          (if sentence_lengths r = [] then PyInt 0
           else PyFloat (of_nat (sum_list (sentence_lengths r)) /
                         of_nat (length (sentence_lengths r))))) \<and>
   fst (stats C data w) \<noteq> Inl ZeroDivisionError"
proof -
  obtain resp where "fst (stats C data w) = Inr resp"
    using stats_never_raises by blast
  then show ?thesis by (simp add: stats_of_doc_eq)
qed

theorem average_zero_guard_witness:
  "(\<exists>r. stats_of_doc orgs_doc = Inr r \<and> sentence_lengths r = [5, 7] \<and>
        avg_sentence_length r = PyFloat 6) \<and>
   (\<exists>r. stats_of_doc \<lparr>ents = [], sents = [], doc_len = 0\<rparr> = Inr r \<and>
        avg_sentence_length r = PyInt 0)"
  using average_zero_guard[of orgs_doc sample_collab empty_req w0]
    average_zero_guard[of "\<lparr>ents = [], sents = [], doc_len = 0\<rparr>" sample_collab empty_req w0]
  by (auto simp: orgs_doc_def)

text \<open>
  C6 (distribution completeness).  For every entity list, the counts of
  \<open>entity_distribution\<close> add up to \<open>entity_count\<close>; its keys are distinct, a label is a
  key exactly when some entity carries it, and the value at a key is the number of
  entities with that label (so a label without an entity is absent, not stored as 0).
\<close>

theorem distribution_completeness:
  "\<exists>r. stats_of_doc d = Inr r \<and>
       entity_count r = length (ents d) \<and>
       sum_list (map snd (entity_distribution r)) = entity_count r \<and>
       distinct (map fst (entity_distribution r)) \<and>
       (\<forall>l. (l \<in> set (map fst (entity_distribution r))) = (l \<in> set (map label (ents d)))) \<and>
       (\<forall>l. map_of (entity_distribution r) l =
              (if l \<in> set (map label (ents d))
               then Some (count_list (map label (ents d)) l) else None))"
  by (simp add: stats_of_doc_eq Counter_sum Counter_distinct Counter_keys Counter_map_of
      del: set_map)

theorem distribution_completeness_witness:
  "\<exists>r. stats_of_doc orgs_doc = Inr r \<and>
       entity_distribution r = [(''ORG'', 2), (''PLACE'', 1)] \<and>
       sum_list (map snd (entity_distribution r)) = 3 \<and> entity_count r = 3"
proof -
  from distribution_completeness[of orgs_doc] obtain r where
    r: "stats_of_doc orgs_doc = Inr r"
    and s: "sum_list (map snd (entity_distribution r)) = entity_count r"
    and n: "entity_count r = length (ents orgs_doc)"
    by blast
  from r have "entity_distribution r = [(''ORG'', 2), (''PLACE'', 1)]"
    by (auto simp: stats_of_doc_eq orgs_doc_def Counter_def)
  with r s n show ?thesis by (simp add: orgs_doc_def)
qed

text \<open>
  C7 (empty-input rejection).  A \<open>/save\<close> or \<open>/stats\<close> request whose text is empty
  (or missing) is answered with the error object and status 400, whose only key is
  \<open>error\<close>; the world is left as it was: no call to the pipeline is logged and no file
  is written.
\<close>

theorem empty_input_rejected:
  assumes "get_text data = []"
  shows "save_results C data w = (Inr (Response (ErrorBody ''No content to save'') 400), w) \<and>
         stats C data w = (Inr (Response (ErrorBody ''No text provided'') 400), w) \<and>
         response_keys (Response (ErrorBody ''No content to save'') 400) = [''error''] \<and>
         response_keys (Response (ErrorBody ''No text provided'') 400) = [''error'']"
proof -
  from assms have "strip (get_text data) = []" by (simp add: strip_def)
  then show ?thesis by (simp add: save_results_rejects stats_rejects)
qed

theorem empty_input_rejected_witness:
  "get_text empty_req = [] \<and>
   save_results sample_collab empty_req w0 =
     (Inr (Response (ErrorBody ''No content to save'') 400), w0) \<and>
   stats sample_collab empty_req w0 =
     (Inr (Response (ErrorBody ''No text provided'') 400), w0)"
proof -
  have e: "get_text empty_req = []" by (simp add: get_text_def empty_req_def)
  from e empty_input_rejected[OF e, of sample_collab w0] show ?thesis by simp
qed

text \<open>
  C8 (unsupported-format rejection).  When the lowercased name of the uploaded file ends
  neither in \<open>.pdf\<close> nor in \<open>.docx\<close>, \<open>/upload\<close> answers with an error and status 400,
  and the world is left as it was: neither extraction function is called.
\<close>

theorem unsupported_format_rejected:
  assumes "\<not> endswith (lower (filename file)) ''.pdf''"
    and "\<not> endswith (lower (filename file)) ''.docx''"
  shows "upload_file C (Some file) w =
           (Inr (Response
              (ErrorBody (if filename file = [] then ''No selected file''
                          else ''Invalid file format. Please upload a PDF or DOCX.'')) 400), w)"
  using assms by (simp add: upload_file_def Let_def)

theorem unsupported_format_rejected_witness:
  "\<not> endswith (lower (filename report_txt)) ''.pdf'' \<and>
   \<not> endswith (lower (filename report_txt)) ''.docx'' \<and>
   upload_file sample_collab (Some report_txt) w0 =
     (Inr (Response (ErrorBody ''Invalid file format. Please upload a PDF or DOCX.'') 400), w0)"
proof -
  have a: "\<not> endswith (lower (filename report_txt)) ''.pdf''"
    by (simp add: endswith_def lower_def lower_char_def report_txt_def)
  have b: "\<not> endswith (lower (filename report_txt)) ''.docx''"
    by (simp add: endswith_def lower_def lower_char_def report_txt_def)
  have c: "filename report_txt \<noteq> []" by (simp add: report_txt_def)
  from a b c unsupported_format_rejected[OF a b, of sample_collab w0] show ?thesis by simp
qed

text \<open>
  C9 (fixed export target).  Every \<open>/save\<close> request that succeeds answers with
  \<open>success = True\<close> and \<open>file_path = "Results.docx"\<close>, and stores the exported document
  at the path \<open>Results.docx\<close>, in place of whatever was there; every other path holds
  what it held before.
\<close>

theorem fixed_export_target:
  assumes "fst (save_results C data w) = Inr (Response (SaveBody ok file_path) code)"
  shows "ok \<and> file_path = ''Results.docx'' \<and>
         (\<exists>para. export_runs (strip (get_text data)) (get_selected_entities data)
                   (ents (nlp C (strip (get_text data)))) = Inr para \<and>
                 files (snd (save_results C data w)) ''Results.docx'' = Some [para]) \<and>
         (\<forall>p. p \<noteq> ''Results.docx'' \<longrightarrow> files (snd (save_results C data w)) p = files w p)"
proof (cases "strip (get_text data) = []")
  case True
  with assms show ?thesis by (simp add: save_results_rejects)
next
  case False
  show ?thesis
  proof (cases "export_runs (strip (get_text data)) (get_selected_entities data)
           (ents (nlp C (strip (get_text data))))")
    case (Inl err)
    from save_results_raises[OF False Inl, of w] assms show ?thesis by simp
  next
    case (Inr para)
    from save_results_writes[OF False Inr, of w] assms Inr show ?thesis
      by (simp add: log_call_def)
  qed
qed

theorem fixed_export_target_witness:
  "fst (save_results sample_collab dracula_req (w0\<lparr>files := (files w0)(''Results.docx'' \<mapsto> [])\<rparr>)) =
     Inr (Response (SaveBody True ''Results.docx'') 200) \<and>
   (\<exists>para. export_runs dracula [''PERSON''] dracula_ents = Inr para \<and>
      files (snd (save_results sample_collab dracula_req
        (w0\<lparr>files := (files w0)(''Results.docx'' \<mapsto> [])\<rparr>))) ''Results.docx'' = Some [para]) \<and>
   files (snd (save_results sample_collab dracula_req
      (w0\<lparr>files := (files w0)(''Results.docx'' \<mapsto> [])\<rparr>))) ''notes.docx'' = None"
proof -
  let ?w = "w0\<lparr>files := (files w0)(''Results.docx'' \<mapsto> [])\<rparr>"
  have s: "strip (get_text dracula_req) = dracula"
    by (simp add: strip_def get_text_def dracula_req_def dracula_def isspace_def)
  have d: "dracula \<noteq> []" by (simp add: dracula_def)
  have g: "get_selected_entities dracula_req = [''PERSON'']"
    by (simp add: get_selected_entities_def dracula_req_def)
  have n: "ents (nlp sample_collab dracula) = dracula_ents"
    by (simp add: sample_collab_def dracula_doc_def)
  have x: "list_all xml_compatible dracula"
    by (simp add: dracula_def xml_compatible_def)
  have v: "valid_spans dracula dracula_ents"
    by (simp add: valid_spans_def span_ok_def dracula_def dracula_ents_def py_slice_def
        clamp_index_def)
  from export_runs_covers[OF v, of "[''PERSON'']"] x obtain para where
    ex: "export_runs dracula [''PERSON''] dracula_ents = Inr para" by blast
  have ne: "strip (get_text dracula_req) \<noteq> []" using s d by simp
  have ex': "export_runs (strip (get_text dracula_req)) (get_selected_entities dracula_req)
      (ents (nlp sample_collab (strip (get_text dracula_req)))) = Inr para"
    using ex s g n by simp
  have r: "fst (save_results sample_collab dracula_req ?w) =
      Inr (Response (SaveBody True ''Results.docx'') 200)"
    using save_results_writes[OF ne ex', of ?w] by simp
  from fixed_export_target[OF r] r s g n show ?thesis
    by (simp add: w0_def)
qed




end
